theory Spec2Isabelle
  imports Main
begin

section \<open>The chess user interface of src/logic/ui.js\<close>

text \<open>
  The file \<^verbatim>\<open>src/logic/ui.js\<close> is the controller that mirrors a chess position onto a
  html table and lets the user move pieces by drag and drop. The rule engine
  (\<^verbatim>\<open>Chess.Position\<close>, \<^verbatim>\<open>Chess.Move\<close>, the bitboards and the constants of the
  \<^verbatim>\<open>Chess\<close> namespace) lives outside \<^verbatim>\<open>src/\<close>; the controller only calls it.
  \<^verbatim>\<open>makeBoard\<close>, which builds the table once, is not modelled: the functions below start
  from a page that has its 64 squares.
\<close>

subsection \<open>The collaborators declared outside the controller\<close>

datatype PieceColor = WHITE | BLACK

text \<open>
  Modelled from the spec: the enumeration \<^verbatim>\<open>Chess.Piece\<close> and the table
  \<^verbatim>\<open>Chess.PIECE_NAMES\<close> are declared outside \<^verbatim>\<open>src/\<close>. The spec calls it a fixed ordered
  enumeration from pawn to king; the loop of \<^verbatim>\<open>updatePieces\<close> counts from
  \<^verbatim>\<open>Chess.Piece.PAWN\<close> up to \<^verbatim>\<open>Chess.Piece.KING\<close>.
\<close>

datatype Piece = PAWN | KNIGHT | BISHOP | ROOK | QUEEN | KING

definition PIECES :: "Piece list" where
  "PIECES = [PAWN, KNIGHT, BISHOP, ROOK, QUEEN, KING]"

fun PIECE_NAMES :: "Piece \<Rightarrow> string" where
  "PIECE_NAMES PAWN = ''pawn''"
| "PIECE_NAMES KNIGHT = ''knight''"
| "PIECE_NAMES BISHOP = ''bishop''"
| "PIECE_NAMES ROOK = ''rook''"
| "PIECE_NAMES QUEEN = ''queen''"
| "PIECE_NAMES KING = ''king''"

text \<open>
  Modelled from the spec: \<^verbatim>\<open>Chess.RANKS\<close> and \<^verbatim>\<open>Chess.FILES\<close> are declared outside
  \<^verbatim>\<open>src/\<close>; the board is 8 by 8 and the linear indices are 0..63.
\<close>

definition RANKS :: nat where "RANKS = 8"
definition FILES :: nat where "FILES = 8"

text \<open>
  Modelled from the spec: \<^verbatim>\<open>Chess.Move.Kind\<close> is declared outside \<^verbatim>\<open>src/\<close>. The
  controller compares \<^verbatim>\<open>getKind()\<close> with five of its constants only; the spec lists
  these five and promotion. Several promotions can share an origin and a destination, so
  a promotion carries the piece promoted to.
\<close>

datatype Kind =
  POSITIONAL | DOUBLE_PAWN_PUSH | EN_PASSANT_CAPTURE | PROMOTION Piece | KING_CASTLE | QUEEN_CASTLE

text \<open>
  A \<^verbatim>\<open>Chess.Move\<close> as the controller sees it: the six getters it calls. The three
  boolean facets are opaque results of the external class, so they are fields of their own.
\<close>

record Move =
  getFrom :: nat
  getTo :: nat
  getKind :: Kind
  isCapture :: bool
  isPromotion :: bool
  isCastle :: bool

text \<open>
  Modelled from the spec: \<^verbatim>\<open>Chess.Position.Status\<close> is declared outside \<^verbatim>\<open>src/\<close>; the
  controller tests for \<^verbatim>\<open>CHECKMATE\<close> and for \<^verbatim>\<open>NORMAL\<close>, every other status is a draw.
\<close>

datatype Status = NORMAL | CHECKMATE | DRAW

text \<open>
  An occupancy set (bitboard) is opaque; the controller only calls \<^verbatim>\<open>isSet(index)\<close>.
\<close>

type_synonym Bitboard = "nat set"

definition isSet :: "Bitboard \<Rightarrow> nat \<Rightarrow> bool" where
  "isSet bb index = (index \<in> bb)"

text \<open>
  The position class and \<^verbatim>\<open>Chess.getPieceCharacter\<close> are parameters: \<open>'p\<close> is the type
  of positions, \<open>newPosition\<close> is \<^verbatim>\<open>new Chess.Position\<close>, and \<open>makeMove\<close>, which mutates
  the position in place, returns the mutated position.
\<close>

record 'p Chess =
  newPosition :: 'p
  getColorBitboard :: "'p \<Rightarrow> PieceColor \<Rightarrow> Bitboard"
  getPieceBitboard :: "'p \<Rightarrow> Piece \<Rightarrow> Bitboard"
  getTurnColor :: "'p \<Rightarrow> PieceColor"
  getLastMove :: "'p \<Rightarrow> Move option"
  getMoves :: "'p \<Rightarrow> Move list"
  makeMove :: "'p \<Rightarrow> Move \<Rightarrow> 'p"
  getStatus :: "'p \<Rightarrow> Status"
  getPieceCharacter :: "Piece \<Rightarrow> PieceColor \<Rightarrow> string"

subsection \<open>The document\<close>

text \<open>
  A piece node is a \<^verbatim>\<open>div\<close> under a \<^verbatim>\<open>td\<close>. jQuery UI marks a draggable element with the
  class \<^verbatim>\<open>ui-draggable\<close> and a droppable one with \<^verbatim>\<open>ui-droppable\<close>; here these are the
  fields \<open>div_draggable\<close> and \<open>td_droppable\<close>, the latter holding the variable \<^verbatim>\<open>from\<close>
  that the drop handler has captured. \<open>div_hover\<close> says that the
  \<^verbatim>\<open>mouseenter\<close>/\<^verbatim>\<open>mouseleave\<close> handlers of \<^verbatim>\<open>updateMoves\<close> are bound to the node.
\<close>

record PieceDiv =
  div_classes :: "string set"
  div_title :: string
  div_text :: string
  div_draggable :: bool
  div_hover :: bool

record SquareTd =
  td_classes :: "string set"
  td_title :: string
  td_children :: "PieceDiv list"
  td_droppable :: "nat option"

text \<open>The calls the claims count.\<close>

datatype Call =
  ClearMoving | ClearDragging | UpdatePieces | UpdateMoves
  | MakeMove Move | NewPosition | Confirm string

text \<open>
  The state of the page and of the controller. Squares are looked up by their id, the
  algebraic name of a linear index; \<^verbatim>\<open>Chess.getAlgebraicFromIndex\<close> and
  \<^verbatim>\<open>Chess.getIndexFromAlgebraic\<close> are declared outside \<^verbatim>\<open>src/\<close> and, by the spec, are a
  bijection between the names and the indices 0..63, so \<open>board\<close> is keyed by the index;
  only the entries below \<open>RANKS * FILES\<close> are elements of the page.

  \<open>moves\<close> and \<open>dragging\<close> are the local variables of \<^verbatim>\<open>updateMoves\<close> that its handlers
  close over. One copy is enough: \<^verbatim>\<open>updateMoves\<close> is only called from
  \<^verbatim>\<open>updateChessPosition\<close>, which destroys every droppable and removes every piece node
  (and with it the handlers bound to it) first.
\<close>

record 'p UI =
  chessPosition :: 'p
  board :: "nat \<Rightarrow> SquareTd"
  dim_display :: string
  moves :: "Move list"
  dragging :: bool
  calls :: "Call list"

subsection \<open>jQuery on classes and selections\<close>

text \<open>\<^verbatim>\<open>addClass("")\<close> adds nothing; \<^verbatim>\<open>removeClass\<close> is given its names split at the spaces.\<close>

definition addClass :: "string \<Rightarrow> string set \<Rightarrow> string set" where
  "addClass c cs = (if c = [] then cs else insert c cs)"

definition removeClass :: "string list \<Rightarrow> string set \<Rightarrow> string set" where
  "removeClass ns cs = cs - set ns"

definition toggleClass :: "string \<Rightarrow> bool \<Rightarrow> string set \<Rightarrow> string set" where
  "toggleClass c b cs = (if b then insert c cs else cs - {c})"

definition on_div :: "(string set \<Rightarrow> string set) \<Rightarrow> PieceDiv \<Rightarrow> PieceDiv" where
  "on_div f d = d\<lparr>div_classes := f (div_classes d)\<rparr>"

definition on_td :: "(string set \<Rightarrow> string set) \<Rightarrow> SquareTd \<Rightarrow> SquareTd" where
  "on_td f td = td\<lparr>td_classes := f (td_classes td)\<rparr>"

text \<open>\<^verbatim>\<open>td.add(td.children())\<close>: the square and every node under it.\<close>

definition on_td_and_children :: "(string set \<Rightarrow> string set) \<Rightarrow> SquareTd \<Rightarrow> SquareTd" where
  "on_td_and_children f td =
     td\<lparr>td_classes := f (td_classes td), td_children := map (on_div f) (td_children td)\<rparr>"

text \<open>\<^verbatim>\<open>td.add(div)\<close> for the node \<open>k\<close> under the square.\<close>

definition on_child :: "nat \<Rightarrow> (PieceDiv \<Rightarrow> PieceDiv) \<Rightarrow> SquareTd \<Rightarrow> SquareTd" where
  "on_child k g td =
     (if k < length (td_children td)
      then td\<lparr>td_children := (td_children td)[k := g (td_children td ! k)]\<rparr> else td)"

text \<open>\<^verbatim>\<open>$(Chess.UI.CHESSBOARD_SQUARE)\<close>: every square of the table.\<close>

definition all_squares :: "(SquareTd \<Rightarrow> SquareTd) \<Rightarrow> (nat \<Rightarrow> SquareTd) \<Rightarrow> nat \<Rightarrow> SquareTd" where
  "all_squares f b = (\<lambda>i. if i < RANKS * FILES then f (b i) else b i)"

text \<open>
  \<^verbatim>\<open>$("#" + Chess.getAlgebraicFromIndex(index))\<close>: the square of that index; an index
  that names no square selects nothing, and jQuery does nothing on an empty selection.
\<close>

definition square_at :: "nat \<Rightarrow> (SquareTd \<Rightarrow> SquareTd) \<Rightarrow> (nat \<Rightarrow> SquareTd) \<Rightarrow> nat \<Rightarrow> SquareTd" where
  "square_at index f b = (if index < RANKS * FILES then b(index := f (b index)) else b)"

subsection \<open>clearMoving and clearDragging\<close>

definition MOVING_CLASSES :: "string list" where
  "MOVING_CLASSES = [''from'', ''to'', ''positional'', ''capture'', ''double-push'',
     ''en-passant'', ''promotion'', ''castle'', ''king-castle'', ''queen-castle'']"

definition clearMoving :: "'p UI \<Rightarrow> 'p UI" where
  "clearMoving ui =
     ui\<lparr>board := all_squares (on_td_and_children (removeClass MOVING_CLASSES)) (board ui),
        calls := calls ui @ [ClearMoving]\<rparr>"

definition destroy_draggable :: "PieceDiv \<Rightarrow> PieceDiv" where
  "destroy_draggable d = d\<lparr>div_draggable := False\<rparr>"

definition destroy_bindings :: "SquareTd \<Rightarrow> SquareTd" where
  "destroy_bindings td =
     td\<lparr>td_children := map destroy_draggable (td_children td), td_droppable := None\<rparr>"

definition clearDragging :: "'p UI \<Rightarrow> 'p UI" where
  "clearDragging ui =
     ui\<lparr>board := all_squares destroy_bindings (board ui), calls := calls ui @ [ClearDragging]\<rparr>"

subsection \<open>updatePieces\<close>

text \<open>The body of the \<^verbatim>\<open>if\<close> in the inner loop: a new \<^verbatim>\<open>div\<close>, tagged together with its square.\<close>

definition new_line :: string where
  "new_line = [CHR 0x0A]"

definition place_piece ::
  "'p Chess \<Rightarrow> 'p \<Rightarrow> Bitboard \<Rightarrow> Bitboard \<Rightarrow> nat \<Rightarrow> Piece \<Rightarrow> SquareTd \<Rightarrow> SquareTd" where
  "place_piece C pos whites blacks index piece td =
     (let isTurn = (if getTurnColor C pos = WHITE then isSet whites index else isSet blacks index);
          div0 = \<lparr>div_classes = {},
                  div_title = td_title td @ new_line @ ''Piece: '' @ PIECE_NAMES piece
                    @ new_line @ ''Color: '' @ (if isSet whites index then ''white'' else ''black''),
                  div_text = getPieceCharacter C piece (if isSet whites index then WHITE else BLACK),
                  div_draggable = False, div_hover = False\<rparr>;
          tag = (\<lambda>cs. toggleClass ''turn'' isTurn
                   (toggleClass ''black'' (isSet blacks index)
                     (toggleClass ''white'' (isSet whites index)
                       (addClass (PIECE_NAMES piece) cs))))
      in td\<lparr>td_classes := tag (td_classes td),
            td_children := td_children td @ [on_div tag div0]\<rparr>)"

text \<open>The inner loop over the piece types, left at the first type whose bitboard has the index.\<close>

fun scan_pieces ::
  "'p Chess \<Rightarrow> 'p \<Rightarrow> Bitboard \<Rightarrow> Bitboard \<Rightarrow> nat \<Rightarrow> Piece list \<Rightarrow> SquareTd \<Rightarrow> SquareTd" where
  "scan_pieces C pos whites blacks index [] td = td"
| "scan_pieces C pos whites blacks index (piece # rest) td =
     (if isSet (getPieceBitboard C pos piece) index
      then place_piece C pos whites blacks index piece td
      else scan_pieces C pos whites blacks index rest td)"

definition PIECE_CLASSES :: "string list" where
  "PIECE_CLASSES = [''white'', ''black'', ''turn'', ''last-move''] @ map PIECE_NAMES PIECES"

definition remove_pieces :: "SquareTd \<Rightarrow> SquareTd" where
  "remove_pieces td = td\<lparr>td_children := []\<rparr>"

definition mark_last_move :: "Move option \<Rightarrow> (nat \<Rightarrow> SquareTd) \<Rightarrow> nat \<Rightarrow> SquareTd" where
  "mark_last_move lastMove b =
     (case lastMove of None \<Rightarrow> b
      | Some m \<Rightarrow> square_at (getTo m) (on_td (addClass ''last-move''))
                   (square_at (getFrom m) (on_td (addClass ''last-move'')) b))"

definition updatePieces :: "'p Chess \<Rightarrow> 'p UI \<Rightarrow> 'p UI" where
  "updatePieces C ui =
     (let pos = chessPosition ui;
          b1 = all_squares remove_pieces (board ui);
          b2 = all_squares (on_td (removeClass PIECE_CLASSES)) b1;
          whites = getColorBitboard C pos WHITE;
          blacks = getColorBitboard C pos BLACK;
          b3 = fold (\<lambda>index b. b(index := scan_pieces C pos whites blacks index PIECES (b index)))
                 [0 ..< RANKS * FILES] b2;
          b4 = mark_last_move (getLastMove C pos) b3
      in ui\<lparr>board := b4, calls := calls ui @ [UpdatePieces]\<rparr>)"

subsection \<open>updateMoves and its handlers\<close>

definition bind_hover :: "PieceDiv \<Rightarrow> PieceDiv" where
  "bind_hover d = (if ''can-move'' \<in> div_classes d then d\<lparr>div_hover := True\<rparr> else d)"

text \<open>
  The part of \<^verbatim>\<open>updateMoves\<close> that runs at the call: the can-move tags, the fresh
  \<^verbatim>\<open>dragging\<close> flag and the handlers bound to the can-move nodes.
\<close>

definition updateMoves :: "'p Chess \<Rightarrow> 'p UI \<Rightarrow> 'p UI" where
  "updateMoves C ui =
     (let ms = getMoves C (chessPosition ui);
          b1 = all_squares (on_td_and_children (removeClass [''can-move''])) (board ui);
          b2 = fold (\<lambda>move b. square_at (getFrom move) (on_td_and_children (addClass ''can-move'')) b)
                 ms b1;
          b3 = all_squares (\<lambda>td. td\<lparr>td_children := map bind_hover (td_children td)\<rparr>) b2
      in ui\<lparr>board := b3, moves := ms, dragging := False, calls := calls ui @ [UpdateMoves]\<rparr>)"

text \<open>The eight \<^verbatim>\<open>addClass\<close> calls after \<^verbatim>\<open>addClass("to")\<close>, in the order of the source.\<close>

definition subtype_classes :: "Move \<Rightarrow> string list" where
  "subtype_classes move =
     [if getKind move = POSITIONAL then ''positional'' else [],
      if isCapture move then ''capture'' else [],
      if getKind move = DOUBLE_PAWN_PUSH then ''double-push'' else [],
      if getKind move = EN_PASSANT_CAPTURE then ''en-passant'' else [],
      if isPromotion move then ''promotion'' else [],
      if isCastle move then ''castle'' else [],
      if getKind move = KING_CASTLE then ''king-castle'' else [],
      if getKind move = QUEEN_CASTLE then ''queen-castle'' else []]"

definition tag_destination :: "nat \<Rightarrow> Move \<Rightarrow> (nat \<Rightarrow> SquareTd) \<Rightarrow> nat \<Rightarrow> SquareTd" where
  "tag_destination from move b =
     (if getFrom move = from
      then square_at (getTo move)
             (on_td_and_children (\<lambda>cs. fold addClass (''to'' # subtype_classes move) cs)) b
      else b)"

definition bind_droppable :: "nat \<Rightarrow> SquareTd \<Rightarrow> SquareTd" where
  "bind_droppable from td = (if ''to'' \<in> td_classes td then td\<lparr>td_droppable := Some from\<rparr> else td)"

text \<open>
  The \<^verbatim>\<open>mouseenter\<close> handler of the node \<open>k\<close> under the square \<open>from\<close> (\<^verbatim>\<open>this\<close> is the
  node, \<^verbatim>\<open>from\<close> the index of its parent's id).
\<close>

definition mouseenter :: "nat \<Rightarrow> nat \<Rightarrow> 'p UI \<Rightarrow> 'p UI" where
  "mouseenter from k ui =
     (if dragging ui then ui
      else
        let isFrom = list_ex (\<lambda>move. getFrom move = from) (moves ui);
            b1 = (board ui)(from := on_child k (on_div (toggleClass ''from'' isFrom))
                                     (on_td (toggleClass ''from'' isFrom) (board ui from)));
            ui1 = ui\<lparr>board := b1\<rparr>
        in if ''from'' \<in> td_classes (b1 from)
              \<or> (k < length (td_children (b1 from)) \<and> ''from'' \<in> div_classes (td_children (b1 from) ! k))
           then
             let b2 = fold (tag_destination from) (moves ui) b1;
                 ui2 = clearDragging (ui1\<lparr>board := b2\<rparr>);
                 b3 = all_squares (bind_droppable from) (board ui2);
                 b4 = b3(from := on_child k (\<lambda>d. d\<lparr>div_draggable := True\<rparr>) (b3 from))
             in ui2\<lparr>board := b4\<rparr>
           else ui1)"

definition mouseleave :: "'p UI \<Rightarrow> 'p UI" where
  "mouseleave ui = (if \<not> dragging ui then clearMoving ui else ui)"

definition drag_start :: "'p UI \<Rightarrow> 'p UI" where
  "drag_start ui = ui\<lparr>dragging := True\<rparr>"

definition drag_stop :: "'p UI \<Rightarrow> 'p UI" where
  "drag_stop ui = ui\<lparr>dragging := False\<rparr>"

subsection \<open>updateChessPosition, reset and the drop handler\<close>

text \<open>
  Lines 221 to 227 of \<^verbatim>\<open>updateChessPosition\<close> taken alone: the resynchronization,
  without the prompts that follow it.
\<close>

definition resync :: "'p Chess \<Rightarrow> 'p UI \<Rightarrow> 'p UI" where
  "resync C ui =
     (let ui1 = clearMoving ui;
          ui2 = clearDragging ui1;
          ui3 = updatePieces C ui2;
          ui4 = updateMoves C ui3
      in ui4\<lparr>dim_display := ''none''\<rparr>)"

definition checkmate_message :: "PieceColor \<Rightarrow> string" where
  "checkmate_message turn =
     (if turn = WHITE then ''Black'' else ''White'')
       @ '' wins. Checkmate! Do you want to restart the game?''"

definition draw_message :: string where
  "draw_message = ''The game is a draw. Do you want to restart the game?''"

text \<open>
  \<^verbatim>\<open>confirm\<close> blocks until the user answers. The answers the user will give are the list
  \<open>answers\<close>; each prompt takes the next one, and a prompt that finds none never returns:
  the result is \<open>None\<close>. The answers left over are returned with the state.
\<close>

fun updateChessPosition :: "'p Chess \<Rightarrow> bool list \<Rightarrow> 'p UI \<Rightarrow> ('p UI \<times> bool list) option"
  and reset :: "'p Chess \<Rightarrow> bool list \<Rightarrow> 'p UI \<Rightarrow> ('p UI \<times> bool list) option" where
  "updateChessPosition C answers ui =
     (let ui1 = clearMoving ui;
          ui2 = clearDragging ui1;
          ui3 = updatePieces C ui2;
          status = getStatus C (chessPosition ui3);
          ui4 = updateMoves C ui3;
          ui5 = ui4\<lparr>dim_display := ''none''\<rparr>
      in if status = CHECKMATE then
           (case answers of
              [] \<Rightarrow> None
            | a # rest \<Rightarrow>
                (let ui6 = ui5\<lparr>calls := calls ui5 @
                             [Confirm (checkmate_message (getTurnColor C (chessPosition ui5)))]\<rparr>
                 in if a then reset C rest ui6 else Some (ui6, rest)))
         else if status \<noteq> NORMAL then
           (case answers of
              [] \<Rightarrow> None
            | a # rest \<Rightarrow>
                (let ui6 = ui5\<lparr>calls := calls ui5 @ [Confirm draw_message]\<rparr>
                 in if a then reset C rest ui6 else Some (ui6, rest)))
         else Some (ui5, answers))"
| "reset C answers ui =
     updateChessPosition C answers
       (ui\<lparr>chessPosition := newPosition C, calls := calls ui @ [NewPosition]\<rparr>)"

text \<open>The callback of \<^verbatim>\<open>moves.filter\<close> in the drop handler.\<close>

definition same_from_to :: "nat \<Rightarrow> nat \<Rightarrow> Move \<Rightarrow> bool" where
  "same_from_to from to move = (getFrom move = from \<and> getTo move = to)"

text \<open>Line 191: \<^verbatim>\<open>ui.chessPosition.makeMove(move)\<close>, which mutates the position.\<close>

definition submit :: "'p Chess \<Rightarrow> Move \<Rightarrow> 'p UI \<Rightarrow> 'p UI" where
  "submit C move ui =
     ui\<lparr>chessPosition := makeMove C (chessPosition ui) move, calls := calls ui @ [MakeMove move]\<rparr>"

text \<open>
  The \<^verbatim>\<open>drop\<close> handler of the square \<open>to\<close>, bound while the origin \<open>from\<close> was hovered
  (\<^verbatim>\<open>to\<close> is the index of the id of \<^verbatim>\<open>this\<close>, \<^verbatim>\<open>from\<close> the captured variable).
\<close>

definition drop_handler ::
  "'p Chess \<Rightarrow> nat \<Rightarrow> nat \<Rightarrow> bool list \<Rightarrow> 'p UI \<Rightarrow> ('p UI \<times> bool list) option" where
  "drop_handler C from to answers ui =
     (let makeMoves = filter (same_from_to from to) (moves ui)
      in if length makeMoves > 0 then updateChessPosition C answers (submit C (makeMoves ! 0) ui)
         else Some (clearDragging (clearMoving ui), answers))"

subsection \<open>Vocabulary of the claims\<close>

text \<open>The first piece type, in the order of the scan, whose bitboard has the index.\<close>

definition first_piece :: "'p Chess \<Rightarrow> 'p \<Rightarrow> nat \<Rightarrow> Piece option" where
  "first_piece C pos index = find (\<lambda>piece. index \<in> getPieceBitboard C pos piece) PIECES"

text \<open>The place of a piece type in the enumeration, which the loop counts through.\<close>

fun piece_rank :: "Piece \<Rightarrow> nat" where
  "piece_rank PAWN = 0"
| "piece_rank KNIGHT = 1"
| "piece_rank BISHOP = 2"
| "piece_rank ROOK = 3"
| "piece_rank QUEEN = 4"
| "piece_rank KING = 5"

text \<open>
  The tags the spec gives a piece node of type \<open>piece\<close> on the square \<open>index\<close>: the name
  of the type, the colors whose occupancy set has the square, and the turn flag when the
  occupancy set of the side to move has it.
\<close>

definition node_classes :: "'p Chess \<Rightarrow> 'p \<Rightarrow> nat \<Rightarrow> Piece \<Rightarrow> string set" where
  "node_classes C pos index piece =
     {PIECE_NAMES piece}
     \<union> (if index \<in> getColorBitboard C pos WHITE then {''white''} else {})
     \<union> (if index \<in> getColorBitboard C pos BLACK then {''black''} else {})
     \<union> (if index \<in> getColorBitboard C pos (getTurnColor C pos) then {''turn''} else {})"



text \<open>The squares of the page that carry the can-move tag.\<close>

definition can_move_squares :: "'p UI \<Rightarrow> nat set" where
  "can_move_squares ui =
     set (filter (\<lambda>index. ''can-move'' \<in> td_classes (board ui index)) [0 ..< RANKS * FILES])"

text \<open>The tags the spec gives the destination of a move: to, and the subtypes that apply.\<close>

definition applicable_tags :: "Move \<Rightarrow> string set" where
  "applicable_tags move =
     {''to''}
     \<union> (if getKind move = POSITIONAL then {''positional''} else {})
     \<union> (if isCapture move then {''capture''} else {})
     \<union> (if getKind move = DOUBLE_PAWN_PUSH then {''double-push''} else {})
     \<union> (if getKind move = EN_PASSANT_CAPTURE then {''en-passant''} else {})
     \<union> (if isPromotion move then {''promotion''} else {})
     \<union> (if isCastle move then {''castle''} else {})
     \<union> (if getKind move = KING_CASTLE then {''king-castle''} else {})
     \<union> (if getKind move = QUEEN_CASTLE then {''queen-castle''} else {})"

text \<open>The tags of all the moves from one origin to one destination, together.\<close>

definition destination_tags :: "nat \<Rightarrow> nat \<Rightarrow> Move list \<Rightarrow> string set" where
  "destination_tags from to ms =
     \<Union> (set (map applicable_tags (filter (same_from_to from to) ms)))"

text \<open>The moves handed to \<^verbatim>\<open>makeMove\<close>, in the order of the calls.\<close>

fun makeMove_calls :: "Call list \<Rightarrow> Move list" where
  "makeMove_calls [] = []"
| "makeMove_calls (MakeMove m # cs) = m # makeMove_calls cs"
| "makeMove_calls (c # cs) = makeMove_calls cs"

text \<open>The calls recorded in the state a handler returns, if it returns.\<close>

definition calls_of :: "('p UI \<times> bool list) option \<Rightarrow> Call list option" where
  "calls_of r = map_option (\<lambda>(ui, rest). calls ui) r"

text \<open>The calls of one full resynchronization.\<close>

definition RESYNC_CALLS :: "Call list" where
  "RESYNC_CALLS = [ClearMoving, ClearDragging, UpdatePieces, UpdateMoves]"

text \<open>
  What may follow a resynchronization: nothing, or a prompt that is declined, or a prompt
  that is accepted, a fresh position, one more resynchronization and what may follow
  that one.
\<close>

fun restart_calls :: "Call list \<Rightarrow> bool" where
  "restart_calls [] = True"
| "restart_calls (c # cs) =
     (case c of
        Confirm msg \<Rightarrow>
          cs = [] \<or> (take 5 cs = NewPosition # RESYNC_CALLS \<and> restart_calls (drop 5 cs))
      | _ \<Rightarrow> False)"

text \<open>
  The calls after a resynchronization that go with the answers the prompts have taken:
  no answer and no call; an accepted prompt, then a fresh position, one more
  resynchronization and the calls that go with the answers left; a declined prompt, then
  nothing. The second definition is the text of the prompt for a status that is not normal.
\<close>

fun restart_trace :: "bool list \<Rightarrow> Call list \<Rightarrow> bool" where
  "restart_trace [] cs = (cs = [])"
| "restart_trace (a # as) cs =
     (case cs of
        [] \<Rightarrow> False
      | c # cs' \<Rightarrow>
          (case c of
             Confirm msg \<Rightarrow>
               if a then take 5 cs' = NewPosition # RESYNC_CALLS \<and> restart_trace as (drop 5 cs')
               else as = [] \<and> cs' = []
           | _ \<Rightarrow> False))"

definition prompt_message :: "'p Chess \<Rightarrow> 'p \<Rightarrow> string" where
  "prompt_message C pos =
     (if getStatus C pos = CHECKMATE then checkmate_message (getTurnColor C pos) else draw_message)"

text \<open>The sides as the prompt writes them, and a word occurring in a message.\<close>

fun color_name :: "PieceColor \<Rightarrow> string" where
  "color_name WHITE = ''White''"
| "color_name BLACK = ''Black''"

fun opponent :: "PieceColor \<Rightarrow> PieceColor" where
  "opponent WHITE = BLACK"
| "opponent BLACK = WHITE"

fun occurs :: "string \<Rightarrow> string \<Rightarrow> bool" where
  "occurs w [] = (w = [])"
| "occurs w (c # cs) = (take (length w) (c # cs) = w \<or> occurs w cs)"




text \<open>
  The board after the first step of the \<^verbatim>\<open>mouseenter\<close> handler, which sets or removes
  the class from on the hovered square and node.
\<close>

definition hover_from :: "nat \<Rightarrow> nat \<Rightarrow> 'p UI \<Rightarrow> nat \<Rightarrow> SquareTd" where
  "hover_from from k ui =
     (board ui)(from := on_child k (on_div (toggleClass ''from'' (list_ex (\<lambda>move. getFrom move = from) (moves ui))))
           (on_td (toggleClass ''from'' (list_ex (\<lambda>move. getFrom move = from) (moves ui))) (board ui from)))"

subsection \<open>A small rule engine for the examples\<close>

text \<open>
  A stand-in for the external rule engine: a position is the record of what its getters
  return, and \<open>demo_makeMove\<close> carries the piece of the origin to the destination and
  passes the turn; to keep the engine small, the new position lists no moves, and a double
  pawn push mates.
\<close>

record DemoPosition =
  dp_colors :: "PieceColor \<Rightarrow> nat set"
  dp_pieces :: "Piece \<Rightarrow> nat set"
  dp_turn :: PieceColor
  dp_last :: "Move option"
  dp_moves :: "Move list"
  dp_status :: Status

definition relocate :: "Move \<Rightarrow> nat set \<Rightarrow> nat set" where
  "relocate m sq =
     (if getFrom m \<in> sq then insert (getTo m) (sq - {getFrom m}) else sq - {getTo m})"

definition demo_makeMove :: "DemoPosition \<Rightarrow> Move \<Rightarrow> DemoPosition" where
  "demo_makeMove p m =
     \<lparr>dp_colors = (\<lambda>c. relocate m (dp_colors p c)),
      dp_pieces = (\<lambda>piece. relocate m (dp_pieces p piece)),
      dp_turn = (if dp_turn p = WHITE then BLACK else WHITE),
      dp_last = Some m, dp_moves = [],
      dp_status = (if getKind m = DOUBLE_PAWN_PUSH then CHECKMATE else NORMAL)\<rparr>"

definition mv :: "nat \<Rightarrow> nat \<Rightarrow> Kind \<Rightarrow> Move" where
  "mv from to kind =
     \<lparr>getFrom = from, getTo = to, getKind = kind, isCapture = False,
      isPromotion = (case kind of PROMOTION piece \<Rightarrow> True | _ \<Rightarrow> False),
      isCastle = (kind = KING_CASTLE \<or> kind = QUEEN_CASTLE)\<rparr>"

text \<open>White: king on 4, pawn on 12. Black: king on 60. White to move.\<close>

definition demo_start :: DemoPosition where
  "demo_start =
     \<lparr>dp_colors = (\<lambda>c. case c of WHITE \<Rightarrow> {4, 12} | BLACK \<Rightarrow> {60}),
      dp_pieces = (\<lambda>piece. case piece of PAWN \<Rightarrow> {12} | KING \<Rightarrow> {4, 60} | _ \<Rightarrow> {}),
      dp_turn = WHITE, dp_last = None,
      dp_moves = [mv 12 20 POSITIONAL, mv 12 28 DOUBLE_PAWN_PUSH, mv 4 5 POSITIONAL],
      dp_status = NORMAL\<rparr>"

text \<open>White: king on 4, pawn on 52, about to promote on 60. Black: king on 63.\<close>

definition demo_promotion :: DemoPosition where
  "demo_promotion =
     \<lparr>dp_colors = (\<lambda>c. case c of WHITE \<Rightarrow> {4, 52} | BLACK \<Rightarrow> {63}),
      dp_pieces = (\<lambda>piece. case piece of PAWN \<Rightarrow> {52} | KING \<Rightarrow> {4, 63} | _ \<Rightarrow> {}),
      dp_turn = WHITE, dp_last = None,
      dp_moves = [mv 52 60 (PROMOTION KNIGHT), mv 52 60 (PROMOTION QUEEN), mv 4 5 POSITIONAL],
      dp_status = NORMAL\<rparr>"

text \<open>
  A position that breaks the agreement of its occupancy sets: square 0 is in the pawn set
  and in no color set, square 12 is in the pawn set and in the king set, and square 33 is
  white and of no piece type.
\<close>

definition demo_broken :: DemoPosition where
  "demo_broken =
     \<lparr>dp_colors = (\<lambda>c. case c of WHITE \<Rightarrow> {12, 33} | BLACK \<Rightarrow> {60}),
      dp_pieces = (\<lambda>piece. case piece of PAWN \<Rightarrow> {0, 12} | KING \<Rightarrow> {12, 60} | _ \<Rightarrow> {}),
      dp_turn = WHITE, dp_last = None, dp_moves = [], dp_status = NORMAL\<rparr>"

definition demo_character :: "Piece \<Rightarrow> PieceColor \<Rightarrow> string" where
  "demo_character piece color =
     (case color of WHITE \<Rightarrow> ''white '' | BLACK \<Rightarrow> ''black '') @ PIECE_NAMES piece"

definition demo_chess :: "DemoPosition Chess" where
  "demo_chess =
     \<lparr>newPosition = demo_start, getColorBitboard = dp_colors, getPieceBitboard = dp_pieces,
      getTurnColor = dp_turn, getLastMove = dp_last, getMoves = dp_moves,
      makeMove = demo_makeMove, getStatus = dp_status, getPieceCharacter = demo_character\<rparr>"

text \<open>The page as \<^verbatim>\<open>makeBoard\<close> leaves it: 64 empty squares, light or dark.\<close>

definition demo_board :: "nat \<Rightarrow> SquareTd" where
  "demo_board index =
     \<lparr>td_classes = {if even (index div 8 + index mod 8) then ''dark'' else ''light''},
      td_title = ''Square'', td_children = [], td_droppable = None\<rparr>"

definition demo_page :: "DemoPosition \<Rightarrow> DemoPosition UI" where
  "demo_page pos =
     \<lparr>chessPosition = pos, board = demo_board, dim_display = ''block'', moves = [],
      dragging = False, calls = []\<rparr>"

text \<open>
  The page after \<^verbatim>\<open>makeChessGame\<close>, then with the pawn on 12 hovered, and the same for
  the position with the promotions and the pawn on 52.
\<close>

definition demo_idle :: "DemoPosition UI" where
  "demo_idle = resync demo_chess (demo_page demo_start)"

definition demo_armed :: "DemoPosition UI" where
  "demo_armed = mouseenter 12 0 demo_idle"

text \<open>
  The pawn is dragged and released where nothing accepts it, so its destinations stay
  tagged; then the king on 4 is hovered and dragged.
\<close>

definition demo_stale :: "DemoPosition UI" where
  "demo_stale = drag_start (mouseenter 4 0 (drag_stop (drag_start demo_armed)))"

definition promotion_armed :: "DemoPosition UI" where
  "promotion_armed = mouseenter 52 0 (resync demo_chess (demo_page demo_promotion))"

text \<open>
  The start position with a white knight on 13, which can go to 28 as the pawn can; and
  the page after the pawn was hovered, dragged and released where nothing accepts it.
\<close>

definition demo_knight :: DemoPosition where
  "demo_knight =
     \<lparr>dp_colors = (\<lambda>c. case c of WHITE \<Rightarrow> {4, 12, 13} | BLACK \<Rightarrow> {60}),
      dp_pieces = (\<lambda>piece. case piece of PAWN \<Rightarrow> {12} | KNIGHT \<Rightarrow> {13} | KING \<Rightarrow> {4, 60} | _ \<Rightarrow> {}),
      dp_turn = WHITE, dp_last = None,
      dp_moves = [mv 12 20 POSITIONAL, mv 12 28 DOUBLE_PAWN_PUSH, mv 13 28 POSITIONAL,
                  mv 4 5 POSITIONAL],
      dp_status = NORMAL\<rparr>"

definition knight_released :: "DemoPosition UI" where
  "knight_released =
     drag_stop (drag_start (mouseenter 12 0 (resync demo_chess (demo_page demo_knight))))"

text \<open>The position after the double push of the pawn on 12: Black is to move and mated.\<close>

definition demo_mated :: DemoPosition where
  "demo_mated = demo_makeMove demo_start (mv 12 28 DOUBLE_PAWN_PUSH)"

section \<open>Properties of updatePieces\<close>

lemma fold_index:
  "fold (\<lambda>index b. b(index := g index (b index))) [0 ..< n] b i = (if i < n then g i (b i) else b i)"
  by (induction n arbitrary: i) auto

lemma scan_pieces_find:
  "scan_pieces C pos whites blacks index ps td =
     (case find (\<lambda>piece. index \<in> getPieceBitboard C pos piece) ps of
        None \<Rightarrow> td | Some piece \<Rightarrow> place_piece C pos whites blacks index piece td)"
  by (induction ps) (auto simp: isSet_def)

lemma board_updatePieces:
  "board (updatePieces C ui) =
     mark_last_move (getLastMove C (chessPosition ui))
       (\<lambda>i. if i < RANKS * FILES
            then scan_pieces C (chessPosition ui) (getColorBitboard C (chessPosition ui) WHITE)
                   (getColorBitboard C (chessPosition ui) BLACK) i PIECES
                   (on_td (removeClass PIECE_CLASSES) (remove_pieces (board ui i)))
            else board ui i)"
proof -
  let ?g = "\<lambda>index. scan_pieces C (chessPosition ui) (getColorBitboard C (chessPosition ui) WHITE)
              (getColorBitboard C (chessPosition ui) BLACK) index PIECES"
  have "fold (\<lambda>index b. b(index := ?g index (b index))) [0 ..< RANKS * FILES] b0 =
        (\<lambda>i. if i < RANKS * FILES then ?g i (b0 i) else b0 i)" for b0
    by (rule ext) (rule fold_index)
  then show ?thesis
    by (simp add: updatePieces_def Let_def all_squares_def cong: if_cong)
qed

lemma children_mark_last_move [simp]:
  "td_children (mark_last_move lm b i) = td_children (b i)"
  by (auto simp: mark_last_move_def square_at_def on_td_def split: option.splits)

lemma PIECE_NAMES_facts [simp]:
  "PIECE_NAMES piece \<noteq> []" "PIECE_NAMES piece \<noteq> ''white''" "PIECE_NAMES piece \<noteq> ''black''"
  "PIECE_NAMES piece \<noteq> ''turn''"
  "[] \<noteq> PIECE_NAMES piece" "''white'' \<noteq> PIECE_NAMES piece" "''black'' \<noteq> PIECE_NAMES piece"
  "''turn'' \<noteq> PIECE_NAMES piece"
  by (cases piece; simp)+

lemma PIECE_NAMES_inj [simp]: "(PIECE_NAMES p = PIECE_NAMES q) = (p = q)"
  by (cases p; cases q; simp)

lemma children_place_piece:
  "td_children (place_piece C pos (getColorBitboard C pos WHITE) (getColorBitboard C pos BLACK) index piece td) =
     td_children td @
     [\<lparr>div_classes = node_classes C pos index piece,
       div_title = td_title td @ new_line @ ''Piece: '' @ PIECE_NAMES piece @ new_line @ ''Color: ''
          @ (if index \<in> getColorBitboard C pos WHITE then ''white'' else ''black''),
       div_text = getPieceCharacter C piece (if index \<in> getColorBitboard C pos WHITE then WHITE else BLACK),
       div_draggable = False, div_hover = False\<rparr>]"
  by (cases "getTurnColor C pos")
     (auto simp: place_piece_def Let_def on_div_def isSet_def addClass_def toggleClass_def node_classes_def)

lemma children_updatePieces:
  "index < RANKS * FILES \<Longrightarrow>
   td_children (board (updatePieces C ui) index) =
     (case first_piece C (chessPosition ui) index of None \<Rightarrow> []
      | Some piece \<Rightarrow>
         [\<lparr>div_classes = node_classes C (chessPosition ui) index piece,
           div_title = td_title (board ui index) @ new_line @ ''Piece: '' @ PIECE_NAMES piece @ new_line
              @ ''Color: '' @ (if index \<in> getColorBitboard C (chessPosition ui) WHITE then ''white'' else ''black''),
           div_text = getPieceCharacter C piece
              (if index \<in> getColorBitboard C (chessPosition ui) WHITE then WHITE else BLACK),
           div_draggable = False, div_hover = False\<rparr>])"
  by (simp add: board_updatePieces scan_pieces_find first_piece_def children_place_piece
     remove_pieces_def on_td_def split: option.splits)

lemma all_pieces: "(\<forall>q. P q) = (P PAWN \<and> P KNIGHT \<and> P BISHOP \<and> P ROOK \<and> P QUEEN \<and> P KING)"
  by (metis Piece.exhaust)

lemma first_piece_Some_iff:
  "first_piece C pos index = Some p \<longleftrightarrow>
     index \<in> getPieceBitboard C pos p \<and> (\<forall>q. index \<in> getPieceBitboard C pos q \<longrightarrow> piece_rank p \<le> piece_rank q)"
  by (cases p) (auto simp: first_piece_def PIECES_def all_pieces)

lemma first_piece_None_iff:
  "first_piece C pos index = None \<longleftrightarrow> (\<forall>q. index \<notin> getPieceBitboard C pos q)"
  by (auto simp: first_piece_def PIECES_def all_pieces find_None_iff)

text \<open>
  C4. On every square 0..63 \<^verbatim>\<open>updatePieces\<close> scans the piece types from pawn to king and
  renders a single piece node for the first type whose occupancy set has the index; the
  node is tagged with the name of that type, with white and black according to the color
  occupancy sets that have the index, and with the turn flag exactly when the occupancy
  set of the side to move has it. A square of no piece type gets no node.
\<close>

theorem updatePieces_first_type:
  assumes "index < RANKS * FILES"
  shows "case first_piece C (chessPosition ui) index of
           None \<Rightarrow> td_children (board (updatePieces C ui) index) = []
         | Some piece \<Rightarrow>
             map div_classes (td_children (board (updatePieces C ui) index)) =
               [node_classes C (chessPosition ui) index piece]"
  using assms by (simp add: children_updatePieces split: option.splits)

lemma demo_getters [simp]:
  "getColorBitboard demo_chess = dp_colors" "getPieceBitboard demo_chess = dp_pieces"
  "getTurnColor demo_chess = dp_turn" "getLastMove demo_chess = dp_last"
  "getMoves demo_chess = dp_moves" "makeMove demo_chess = demo_makeMove"
  "getStatus demo_chess = dp_status" "newPosition demo_chess = demo_start"
  "getPieceCharacter demo_chess = demo_character"
  by (simp_all add: demo_chess_def)

lemma board_size [simp]: "RANKS * FILES = 64"
  by (simp add: RANKS_def FILES_def)

text \<open>C4 at square 12 of a position where the pawn set and the king set both have it.\<close>

theorem updatePieces_first_type_witness:
  "(12::nat) < RANKS * FILES \<and>
   map div_classes (td_children (board (updatePieces demo_chess (demo_page demo_broken)) 12)) =
     [{''pawn'', ''white'', ''turn''}]"
  using updatePieces_first_type [of 12 demo_chess "demo_page demo_broken"]
  by (simp add: first_piece_def PIECES_def node_classes_def demo_page_def demo_broken_def insert_commute)











text \<open>
  C10. Whatever the occupancy sets are, \<^verbatim>\<open>updatePieces\<close> leaves at most one piece node
  on a square; when several piece types claim the square, the node carries the name of
  the first of them in the order pawn to king and of no other type.
\<close>

theorem updatePieces_one_node:
  assumes "index < RANKS * FILES"
  shows "length (td_children (board (updatePieces C ui) index)) \<le> 1
         \<and> (\<forall>p. index \<in> getPieceBitboard C (chessPosition ui) p
                \<and> (\<forall>q. index \<in> getPieceBitboard C (chessPosition ui) q \<longrightarrow> piece_rank p \<le> piece_rank q)
              \<longrightarrow> (\<exists>d. td_children (board (updatePieces C ui) index) = [d]
                       \<and> (\<forall>q. (PIECE_NAMES q \<in> div_classes d) = (q = p))))"
  using assms
  by (auto simp: children_updatePieces first_piece_Some_iff [symmetric] node_classes_def
      simp del: board_size split: option.splits)

text \<open>C10 at square 12 of a position where the pawn set and the king set both have it.\<close>

theorem updatePieces_one_node_witness:
  "(12::nat) < RANKS * FILES
   \<and> 12 \<in> getPieceBitboard demo_chess (chessPosition (demo_page demo_broken)) PAWN
   \<and> 12 \<in> getPieceBitboard demo_chess (chessPosition (demo_page demo_broken)) KING
   \<and> length (td_children (board (updatePieces demo_chess (demo_page demo_broken)) 12)) \<le> 1
   \<and> (\<exists>d. td_children (board (updatePieces demo_chess (demo_page demo_broken)) 12) = [d]
          \<and> ''pawn'' \<in> div_classes d \<and> ''king'' \<notin> div_classes d)"
proof -
  have "\<exists>d. td_children (board (updatePieces demo_chess (demo_page demo_broken)) 12) = [d]
          \<and> (\<forall>q. (PIECE_NAMES q \<in> div_classes d) = (q = PAWN))"
    using updatePieces_one_node [of 12 demo_chess "demo_page demo_broken"]
    by (simp add: demo_page_def demo_broken_def)
  then obtain d where d: "td_children (board (updatePieces demo_chess (demo_page demo_broken)) 12) = [d]"
    and n: "\<forall>q. (PIECE_NAMES q \<in> div_classes d) = (q = PAWN)" by blast
  from n have "''pawn'' \<in> div_classes d" "''king'' \<notin> div_classes d"
    using n [rule_format, of PAWN] n [rule_format, of KING] by simp_all
  with d show ?thesis by (simp add: demo_page_def demo_broken_def)
qed

section \<open>Properties of updateMoves\<close>

lemma on_td_and_children_idem:
  "(\<And>cs. f (f cs) = f cs) \<Longrightarrow> on_td_and_children f (on_td_and_children f td) = on_td_and_children f td"
  by (simp add: on_td_and_children_def on_div_def comp_def)

lemma fold_square_at:
  assumes idem: "\<And>td. f (f td) = f td"
  shows "fold (\<lambda>x b. square_at (key x) f b) xs b i =
     (if i < RANKS * FILES \<and> i \<in> key ` set xs then f (b i) else b i)"
proof (induction xs arbitrary: b)
  case Nil
  then show ?case by simp
next
  case (Cons x xs)
  have "fold (\<lambda>x b. square_at (key x) f b) (x # xs) b i =
        fold (\<lambda>x b. square_at (key x) f b) xs (square_at (key x) f b) i"
    by simp
  also have "\<dots> = (if i < RANKS * FILES \<and> i \<in> key ` set xs
                   then f (square_at (key x) f b i) else square_at (key x) f b i)"
    by (rule Cons.IH)
  also have "\<dots> = (if i < RANKS * FILES \<and> i \<in> key ` set (x # xs) then f (b i) else b i)"
    by (auto simp: square_at_def idem simp del: board_size)
  finally show ?case .
qed

lemma fold_can_move:
  "fold (\<lambda>move b. square_at (getFrom move) (on_td_and_children (addClass ''can-move'')) b) ms b i =
     (if i < RANKS * FILES \<and> i \<in> getFrom ` set ms
      then on_td_and_children (addClass ''can-move'') (b i) else b i)"
  by (rule fold_square_at) (rule on_td_and_children_idem, simp add: addClass_def)

lemma board_updateMoves:
  "board (updateMoves C ui) i =
     (if i < RANKS * FILES
      then (\<lambda>td. td\<lparr>td_children := map bind_hover (td_children td)\<rparr>)
             ((if i \<in> getFrom ` set (getMoves C (chessPosition ui))
               then on_td_and_children (addClass ''can-move'') else id)
                (on_td_and_children (removeClass [''can-move'']) (board ui i)))
      else board ui i)"
  by (simp add: updateMoves_def Let_def fold_can_move all_squares_def del: board_size)

text \<open>
  C2. After the global phase of \<^verbatim>\<open>updateMoves\<close> the squares that carry the can-move tag
  are exactly the origins of the moves that \<^verbatim>\<open>getMoves\<close> returns, whatever tags were there
  before; the piece nodes of these squares carry the tag and no other node does. The
  origins are indices of the board, as the getters of a move promise.
\<close>

theorem updateMoves_can_move:
  assumes "\<forall>move \<in> set (getMoves C (chessPosition ui)). getFrom move < RANKS * FILES"
  shows "can_move_squares (updateMoves C ui) = getFrom ` set (getMoves C (chessPosition ui))
         \<and> (\<forall>index < RANKS * FILES. \<forall>d \<in> set (td_children (board (updateMoves C ui) index)).
              (''can-move'' \<in> div_classes d) = (index \<in> getFrom ` set (getMoves C (chessPosition ui))))"
proof (intro conjI allI impI ballI)
  show "can_move_squares (updateMoves C ui) = getFrom ` set (getMoves C (chessPosition ui))"
    using assms unfolding can_move_squares_def
    by (auto simp: board_updateMoves on_td_and_children_def addClass_def removeClass_def
        simp del: board_size)
next
  fix index d
  assume "index < RANKS * FILES" and "d \<in> set (td_children (board (updateMoves C ui) index))"
  then show "(''can-move'' \<in> div_classes d) = (index \<in> getFrom ` set (getMoves C (chessPosition ui)))"
    by (auto simp: board_updateMoves on_td_and_children_def on_div_def bind_hover_def addClass_def
        removeClass_def simp del: board_size split: if_splits)
qed

text \<open>C2 at the start position of the examples: the can-move squares are 4 and 12.\<close>

theorem updateMoves_can_move_witness:
  "list_all (\<lambda>move. getFrom move < RANKS * FILES)
     (getMoves demo_chess (chessPosition (demo_page demo_start)))
   \<and> can_move_squares (updateMoves demo_chess (demo_page demo_start)) = {4, 12}"
  using updateMoves_can_move [of demo_chess "demo_page demo_start"]
  by (auto simp: demo_page_def demo_start_def mv_def)

section \<open>Resynchronization and the prompts that follow it\<close>

declare updateChessPosition.simps [simp del] reset.simps [simp del]

lemma clearMoving_fields [simp]:
  "chessPosition (clearMoving ui) = chessPosition ui" "moves (clearMoving ui) = moves ui"
  "dragging (clearMoving ui) = dragging ui" "dim_display (clearMoving ui) = dim_display ui"
  "calls (clearMoving ui) = calls ui @ [ClearMoving]"
  by (simp_all add: clearMoving_def)

lemma clearDragging_fields [simp]:
  "chessPosition (clearDragging ui) = chessPosition ui" "moves (clearDragging ui) = moves ui"
  "dragging (clearDragging ui) = dragging ui" "dim_display (clearDragging ui) = dim_display ui"
  "calls (clearDragging ui) = calls ui @ [ClearDragging]"
  by (simp_all add: clearDragging_def)

lemma updatePieces_fields [simp]:
  "chessPosition (updatePieces C ui) = chessPosition ui" "moves (updatePieces C ui) = moves ui"
  "dragging (updatePieces C ui) = dragging ui" "dim_display (updatePieces C ui) = dim_display ui"
  "calls (updatePieces C ui) = calls ui @ [UpdatePieces]"
  by (simp_all add: updatePieces_def Let_def)

lemma updateMoves_fields [simp]:
  "chessPosition (updateMoves C ui) = chessPosition ui"
  "moves (updateMoves C ui) = getMoves C (chessPosition ui)"
  "dragging (updateMoves C ui) = False" "dim_display (updateMoves C ui) = dim_display ui"
  "calls (updateMoves C ui) = calls ui @ [UpdateMoves]"
  by (simp_all add: updateMoves_def Let_def)

lemma resync_fields [simp]:
  "chessPosition (resync C ui) = chessPosition ui"
  "moves (resync C ui) = getMoves C (chessPosition ui)"
  "dragging (resync C ui) = False" "dim_display (resync C ui) = ''none''"
  "calls (resync C ui) = calls ui @ RESYNC_CALLS"
  by (simp_all add: resync_def Let_def RESYNC_CALLS_def)

lemma board_clearMoving:
  "board (clearMoving ui) i =
     (if i < RANKS * FILES then on_td_and_children (removeClass MOVING_CLASSES) (board ui i)
      else board ui i)"
  by (simp add: clearMoving_def all_squares_def del: board_size)

lemma board_clearDragging:
  "board (clearDragging ui) i =
     (if i < RANKS * FILES then destroy_bindings (board ui i) else board ui i)"
  by (simp add: clearDragging_def all_squares_def del: board_size)

lemma board_resync:
  "board (resync C ui) = board (updateMoves C (updatePieces C (clearDragging (clearMoving ui))))"
  by (simp add: resync_def Let_def)

text \<open>The prompts after a resynchronization, as a function of the state it leaves.\<close>

lemma updateChessPosition_resync:
  "updateChessPosition C answers ui =
     (case getStatus C (chessPosition ui) of
        NORMAL \<Rightarrow> Some (resync C ui, answers)
      | CHECKMATE \<Rightarrow>
          (case answers of [] \<Rightarrow> None
           | a # rest \<Rightarrow>
               if a
               then updateChessPosition C rest
                      ((resync C ui)\<lparr>chessPosition := newPosition C,
                         calls := calls ui @ RESYNC_CALLS @
                           [Confirm (checkmate_message (getTurnColor C (chessPosition ui))), NewPosition]\<rparr>)
               else Some ((resync C ui)\<lparr>calls := calls ui @ RESYNC_CALLS @
                           [Confirm (checkmate_message (getTurnColor C (chessPosition ui)))]\<rparr>, rest))
      | DRAW \<Rightarrow>
          (case answers of [] \<Rightarrow> None
           | a # rest \<Rightarrow>
               if a
               then updateChessPosition C rest
                      ((resync C ui)\<lparr>chessPosition := newPosition C,
                         calls := calls ui @ RESYNC_CALLS @ [Confirm draw_message, NewPosition]\<rparr>)
               else Some ((resync C ui)\<lparr>calls := calls ui @ RESYNC_CALLS @ [Confirm draw_message]\<rparr>,
                          rest)))"
  by (subst updateChessPosition.simps)
     (simp add: Let_def reset.simps resync_def RESYNC_CALLS_def split: Status.splits list.splits)

lemma restart_calls_accept:
  "restart_calls (Confirm msg # NewPosition # RESYNC_CALLS @ cs) = restart_calls cs"
  by (simp add: RESYNC_CALLS_def)

lemma updateChessPosition_calls:
  "updateChessPosition C answers ui = Some (ui', rest) \<Longrightarrow>
     \<exists>tail. calls ui' = calls ui @ RESYNC_CALLS @ tail \<and> restart_calls tail"
proof (induction answers arbitrary: ui)
  case Nil
  then show ?case
    by (subst (asm) updateChessPosition_resync) (auto split: Status.splits)
next
  case (Cons a answers)
  show ?case
  proof (cases "getStatus C (chessPosition ui)")
    case NORMAL
    with Cons.prems show ?thesis
      by (subst (asm) updateChessPosition_resync) auto
  next
    case CHECKMATE
    show ?thesis
    proof (cases a)
      case True
      with CHECKMATE Cons.prems obtain tail where
        "calls ui' = (calls ui @ RESYNC_CALLS @
            [Confirm (checkmate_message (getTurnColor C (chessPosition ui))), NewPosition])
            @ RESYNC_CALLS @ tail" and "restart_calls tail"
        by (subst (asm) updateChessPosition_resync) (auto dest!: Cons.IH)
      then show ?thesis
        by (intro exI [of _ "Confirm (checkmate_message (getTurnColor C (chessPosition ui)))
              # NewPosition # RESYNC_CALLS @ tail"]) (simp add: restart_calls_accept del: restart_calls.simps)
    next
      case False
      with CHECKMATE Cons.prems show ?thesis
        by (subst (asm) updateChessPosition_resync) auto
    qed
  next
    case DRAW
    show ?thesis
    proof (cases a)
      case True
      with DRAW Cons.prems obtain tail where
        "calls ui' = (calls ui @ RESYNC_CALLS @ [Confirm draw_message, NewPosition])
            @ RESYNC_CALLS @ tail" and "restart_calls tail"
        by (subst (asm) updateChessPosition_resync) (auto dest!: Cons.IH)
      then show ?thesis
        by (intro exI [of _ "Confirm draw_message # NewPosition # RESYNC_CALLS @ tail"])
           (simp add: restart_calls_accept del: restart_calls.simps)
    next
      case False
      with DRAW Cons.prems show ?thesis
        by (subst (asm) updateChessPosition_resync) auto
    qed
  qed
qed

lemma makeMove_calls_append: "makeMove_calls (xs @ ys) = makeMove_calls xs @ makeMove_calls ys"
  by (induction xs rule: makeMove_calls.induct) auto

lemma restart_calls_no_makeMove: "restart_calls cs \<Longrightarrow> makeMove_calls cs = []"
proof (induction cs rule: restart_calls.induct)
  case 1
  then show ?case by simp
next
  case (2 c cs)
  then obtain msg where c: "c = Confirm msg" by (cases c) auto
  from 2 c consider "cs = []" | "take 5 cs = NewPosition # RESYNC_CALLS" "restart_calls (drop 5 cs)"
    by auto
  then show ?case
  proof cases
    case 1
    with c show ?thesis by simp
  next
    case 2
    have "makeMove_calls cs = makeMove_calls (take 5 cs @ drop 5 cs)" by simp
    also have "\<dots> = makeMove_calls (drop 5 cs)"
      unfolding makeMove_calls_append using 2(1) by (simp add: RESYNC_CALLS_def)
    also have "\<dots> = []" using "2.IH" c 2 by simp
    finally show ?thesis using c by simp
  qed
qed

lemma updateChessPosition_returns:
  "False \<in> set answers \<Longrightarrow> \<exists>r. updateChessPosition C answers ui = Some r"
proof (induction answers arbitrary: ui)
  case Nil
  then show ?case by simp
next
  case (Cons a answers)
  show ?case
  proof (cases a)
    case True
    with Cons.prems have "False \<in> set answers" by simp
    then have "\<exists>r. updateChessPosition C answers ui' = Some r" for ui'
      by (rule Cons.IH)
    then show ?thesis
      by (subst updateChessPosition_resync) (simp add: True split: Status.splits)
  next
    case False
    then show ?thesis
      by (subst updateChessPosition_resync) (simp split: Status.splits)
  qed
qed

text \<open>The same, with every answer tied to the calls that follow it.\<close>

lemma restart_trace_accept:
  "restart_trace (True # used) (Confirm msg # NewPosition # RESYNC_CALLS @ cs) = restart_trace used cs"
  by (simp add: RESYNC_CALLS_def)

lemma updateChessPosition_prompt:
  assumes "getStatus C (chessPosition ui) \<noteq> NORMAL"
  shows "updateChessPosition C [] ui = None"
    and "updateChessPosition C (False # rest) ui =
           Some ((resync C ui)\<lparr>calls := calls ui @ RESYNC_CALLS @
                    [Confirm (prompt_message C (chessPosition ui))]\<rparr>, rest)"
    and "updateChessPosition C (True # rest) ui =
           updateChessPosition C rest
             ((resync C ui)\<lparr>chessPosition := newPosition C,
                calls := calls ui @ RESYNC_CALLS @
                    [Confirm (prompt_message C (chessPosition ui)), NewPosition]\<rparr>)"
  using assms
  by (subst updateChessPosition_resync, simp add: prompt_message_def split: Status.splits)+

lemma updateChessPosition_trace:
  "updateChessPosition C answers ui = Some (ui', rest) \<Longrightarrow>
     \<exists>used tail. answers = used @ rest
       \<and> calls ui' = calls ui @ RESYNC_CALLS @ tail
       \<and> restart_trace used tail
       \<and> (used = []) = (getStatus C (chessPosition ui) = NORMAL)
       \<and> chessPosition ui' = (if True \<in> set used then newPosition C else chessPosition ui)"
proof (induction answers arbitrary: ui)
  case Nil
  show ?case
  proof (cases "getStatus C (chessPosition ui) = NORMAL")
    case True
    with Nil show ?thesis
      by (subst (asm) updateChessPosition_resync) auto
  next
    case False
    with Nil show ?thesis by (simp add: updateChessPosition_prompt)
  qed
next
  case (Cons a answers)
  show ?case
  proof (cases "getStatus C (chessPosition ui) = NORMAL")
    case True
    with Cons.prems have "ui' = resync C ui" "rest = a # answers"
      by (subst (asm) updateChessPosition_resync, simp)+
    with True show ?thesis
      by (intro exI [of _ "[]"]) simp
  next
    case False
    show ?thesis
    proof (cases a)
      case a: True
      let ?msg = "prompt_message C (chessPosition ui)"
      let ?X = "(resync C ui)\<lparr>chessPosition := newPosition C,
                calls := calls ui @ RESYNC_CALLS @ [Confirm ?msg, NewPosition]\<rparr>"
      from Cons.prems a False have "updateChessPosition C answers ?X = Some (ui', rest)"
        by (simp add: updateChessPosition_prompt)
      from Cons.IH [OF this] obtain used tail where
        u: "answers = used @ rest" "calls ui' = calls ?X @ RESYNC_CALLS @ tail"
           "restart_trace used tail"
           "chessPosition ui' = (if True \<in> set used then newPosition C else chessPosition ?X)"
        by blast
      show ?thesis
        apply (rule exI [of _ "True # used"])
        apply (rule exI [of _ "Confirm ?msg # NewPosition # RESYNC_CALLS @ tail"])
        using u a False by (simp add: restart_trace_accept del: restart_trace.simps)
    next
      case a: False
      let ?msg = "prompt_message C (chessPosition ui)"
      from Cons.prems a False have
        "ui' = (resync C ui)\<lparr>calls := calls ui @ RESYNC_CALLS @ [Confirm ?msg]\<rparr>" "rest = answers"
        by (simp_all add: updateChessPosition_prompt)
      with a False show ?thesis
        apply (intro exI [of _ "[False]"])
        apply (intro exI [of _ "[Confirm ?msg]"])
        by simp
    qed
  qed
qed

lemma restart_trace_count:
  "restart_trace used tail \<Longrightarrow> count_list tail UpdatePieces = count_list used True"
proof (induction used arbitrary: tail)
  case Nil
  then show ?case by simp
next
  case (Cons a used)
  then obtain msg cs where t: "tail = Confirm msg # cs"
    by (auto split: list.splits Call.splits)
  show ?case
  proof (cases a)
    case True
    with Cons.prems t have c: "take 5 cs = NewPosition # RESYNC_CALLS" "restart_trace used (drop 5 cs)"
      by auto
    have "count_list cs UpdatePieces = count_list (take 5 cs @ drop 5 cs) UpdatePieces" by simp
    also have "\<dots> = Suc (count_list (drop 5 cs) UpdatePieces)"
      unfolding count_list_append c(1) by (simp add: RESYNC_CALLS_def)
    finally show ?thesis using Cons.IH [OF c(2)] t True by simp
  next
    case False
    with Cons.prems t show ?thesis by auto
  qed
qed

section \<open>The hover handler\<close>

lemma td_classes_on_child [simp]: "td_classes (on_child k g td) = td_classes td"
  by (simp add: on_child_def)

lemma td_droppable_on_child [simp]: "td_droppable (on_child k g td) = td_droppable td"
  by (simp add: on_child_def)

lemma length_children_on_child [simp]:
  "length (td_children (on_child k g td)) = length (td_children td)"
  by (simp add: on_child_def)

lemma mouseenter_unfold:
  "mouseenter from k ui =
     (if dragging ui then ui
      else if list_ex (\<lambda>move. getFrom move = from) (moves ui)
      then (let ui2 = clearDragging (ui\<lparr>board := fold (tag_destination from) (moves ui) (hover_from from k ui)\<rparr>);
                b3 = all_squares (bind_droppable from) (board ui2)
            in ui2\<lparr>board := b3(from := on_child k (\<lambda>d. d\<lparr>div_draggable := True\<rparr>) (b3 from))\<rparr>)
      else ui\<lparr>board := hover_from from k ui\<rparr>)"
proof (cases "list_ex (\<lambda>move. getFrom move = from) (moves ui)")
  case True
  then show ?thesis
    by (simp add: mouseenter_def Let_def hover_from_def on_td_def toggleClass_def del: board_size)
next
  case False
  then show ?thesis
    by (simp add: mouseenter_def Let_def hover_from_def on_td_def on_child_def on_div_def
        toggleClass_def del: board_size)
qed

lemma mouseenter_fields [simp]:
  "chessPosition (mouseenter from k ui) = chessPosition ui"
  "moves (mouseenter from k ui) = moves ui"
  "dragging (mouseenter from k ui) = dragging ui"
  "calls (mouseenter from k ui) =
     (if \<not> dragging ui \<and> list_ex (\<lambda>move. getFrom move = from) (moves ui)
      then calls ui @ [ClearDragging] else calls ui)"
  by (simp_all add: mouseenter_unfold Let_def)

lemma fold_addClass_tags:
  "fold addClass (''to'' # subtype_classes move) cs = cs \<union> applicable_tags move"
  by (auto simp: subtype_classes_def applicable_tags_def addClass_def)

lemma fold_addClass_fun:
  "fold addClass (''to'' # subtype_classes move) = (\<lambda>cs. cs \<union> applicable_tags move)"
  by (rule ext) (rule fold_addClass_tags)

lemma on_td_and_children_comp:
  "on_td_and_children f (on_td_and_children g td) = on_td_and_children (\<lambda>cs. f (g cs)) td"
  by (simp add: on_td_and_children_def on_div_def comp_def)

lemma on_div_same: "on_div (\<lambda>cs. cs) = id"
  by (rule ext) (simp add: on_div_def)

lemma on_td_and_children_same [simp]: "on_td_and_children (\<lambda>cs. cs) td = td"
  by (simp add: on_td_and_children_def on_div_same)

lemma destination_tags_Cons:
  "destination_tags from to (m # ms) =
     (if same_from_to from to m then applicable_tags m \<union> destination_tags from to ms
      else destination_tags from to ms)"
  by (simp add: destination_tags_def)

lemma destination_tags_Nil [simp]: "destination_tags from to [] = {}"
  by (simp add: destination_tags_def)

lemma tag_destination_at:
  "tag_destination from m b j =
     (if j < RANKS * FILES \<and> same_from_to from j m
      then on_td_and_children (\<lambda>cs. cs \<union> applicable_tags m) (b j) else b j)"
  unfolding tag_destination_def fold_addClass_fun
  by (auto simp: square_at_def same_from_to_def simp del: board_size)

lemma fold_tag_destination:
  "fold (tag_destination from) ms b j =
     (if j < RANKS * FILES then on_td_and_children (\<lambda>cs. cs \<union> destination_tags from j ms) (b j)
      else b j)"
proof (induction ms arbitrary: b)
  case Nil
  then show ?case by simp
next
  case (Cons m ms)
  have "fold (tag_destination from) (m # ms) b j = fold (tag_destination from) ms (tag_destination from m b) j"
    by simp
  also have "\<dots> = (if j < RANKS * FILES
      then on_td_and_children (\<lambda>cs. cs \<union> destination_tags from j ms) (tag_destination from m b j)
      else tag_destination from m b j)"
    by (rule Cons.IH)
  also have "\<dots> = (if j < RANKS * FILES
      then on_td_and_children (\<lambda>cs. cs \<union> destination_tags from j (m # ms)) (b j) else b j)"
    by (simp add: tag_destination_at on_td_and_children_comp destination_tags_Cons Un_assoc
        del: board_size)
  finally show ?case .
qed

text \<open>The square \<open>j\<close> after the handler, for a hover that is not in a drag.\<close>

lemma board_mouseenter:
  assumes "\<not> dragging ui" and "j < RANKS * FILES"
  shows "board (mouseenter from k ui) j =
     (if list_ex (\<lambda>move. getFrom move = from) (moves ui)
      then (if j = from then on_child k (\<lambda>d. d\<lparr>div_draggable := True\<rparr>) else id)
             (bind_droppable from (destroy_bindings
                (on_td_and_children (\<lambda>cs. cs \<union> destination_tags from j (moves ui))
                   (hover_from from k ui j))))
      else hover_from from k ui j)"
  using assms
  by (simp add: mouseenter_unfold Let_def board_clearDragging fold_tag_destination all_squares_def
      del: board_size)


lemma from_not_applicable [simp]: "''from'' \<notin> applicable_tags m"
  by (simp add: applicable_tags_def)

lemma from_not_destination [simp]: "''from'' \<notin> destination_tags from j ms"
  by (simp add: destination_tags_def)










lemmas page_simps =
  board_resync board_updateMoves board_updatePieces board_clearDragging board_clearMoving
  scan_pieces_find mark_last_move_def place_piece_def
  on_td_and_children_def on_td_def on_div_def remove_pieces_def destroy_bindings_def
  destroy_draggable_def bind_hover_def bind_droppable_def on_child_def hover_from_def
  addClass_def removeClass_def toggleClass_def isSet_def
  MOVING_CLASSES_def PIECE_CLASSES_def PIECES_def
  demo_page_def demo_board_def demo_start_def demo_promotion_def mv_def

lemma demo_idle_fields [simp]:
  "chessPosition demo_idle = demo_start" "moves demo_idle = dp_moves demo_start"
  "dragging demo_idle = False" "calls demo_idle = RESYNC_CALLS"
  by (simp_all add: demo_idle_def demo_page_def)

lemma demo_idle_28: "board demo_idle 28 =
   \<lparr>td_classes = {''light''}, td_title = ''Square'', td_children = [], td_droppable = None\<rparr>"
  by (simp add: demo_idle_def page_simps)




lemma demo_tags_12_28_moving:
  "{''double-push'', ''to'', ''light''} \<inter> (set MOVING_CLASSES - {''from''}) = {''double-push'', ''to''}"
  by (auto simp: MOVING_CLASSES_def)


section \<open>The drop handler\<close>

lemma submit_fields [simp]:
  "chessPosition (submit C move ui) = makeMove C (chessPosition ui) move"
  "calls (submit C move ui) = calls ui @ [MakeMove move]"
  "moves (submit C move ui) = moves ui" "board (submit C move ui) = board ui"
  by (simp_all add: submit_def)

text \<open>
  The list \<open>moves\<close> that the handlers closed over is the legal-move list of the position:
  a resynchronization makes it so, and hovering and dragging change neither of the two.
\<close>

lemma moves_legal_resync: "moves (resync C ui) = getMoves C (chessPosition (resync C ui))"
  by simp

lemma moves_legal_kept:
  assumes "moves ui = getMoves C (chessPosition ui)"
  shows "moves (mouseenter from k ui) = getMoves C (chessPosition (mouseenter from k ui))"
    and "moves (mouseleave ui) = getMoves C (chessPosition (mouseleave ui))"
    and "moves (drag_start ui) = getMoves C (chessPosition (drag_start ui))"
    and "moves (drag_stop ui) = getMoves C (chessPosition (drag_stop ui))"
  using assms by (simp_all add: mouseleave_def drag_start_def drag_stop_def)

lemma makeMove_calls_RESYNC [simp]: "makeMove_calls RESYNC_CALLS = []"
  by (simp add: RESYNC_CALLS_def)

text \<open>
  C1, as amended. For a drop with exactly one move of the armed origin and the destination,
  the controller calls \<^verbatim>\<open>makeMove\<close> exactly once, with that move, and then runs one full
  resynchronization. When the status of the new position is normal this is all it does and
  no answer is taken. Otherwise a prompt follows: without an answer the handler does not
  return; a declined prompt ends it, with the one resynchronization; each accepted prompt
  is followed by a fresh position and one more resynchronization, so that the handler
  resynchronizes once more than the user accepts, and the position it leaves is the fresh
  one if the user accepted at all and the one after the move if not.
\<close>

theorem drop_unique_move:
  assumes "filter (same_from_to from to) (moves ui) = [move]"
  shows "(getStatus C (makeMove C (chessPosition ui) move) = NORMAL \<longrightarrow>
            drop_handler C from to answers ui = Some (resync C (submit C move ui), answers))
         \<and> (\<forall>ui' rest. drop_handler C from to answers ui = Some (ui', rest) \<longrightarrow>
               makeMove_calls (calls ui') = makeMove_calls (calls ui) @ [move]
               \<and> (\<exists>tail. calls ui' = calls ui @ MakeMove move # RESYNC_CALLS @ tail
                     \<and> restart_calls tail))
         \<and> (False \<in> set answers \<longrightarrow> (\<exists>r. drop_handler C from to answers ui = Some r))
         \<and> (\<forall>ui' rest. drop_handler C from to answers ui = Some (ui', rest) \<longrightarrow>
               (\<exists>used tail. answers = used @ rest
                  \<and> calls ui' = calls ui @ MakeMove move # RESYNC_CALLS @ tail
                  \<and> restart_trace used tail
                  \<and> (used = []) = (getStatus C (makeMove C (chessPosition ui) move) = NORMAL)
                  \<and> count_list (RESYNC_CALLS @ tail) UpdatePieces = Suc (count_list used True)
                  \<and> chessPosition ui' =
                      (if True \<in> set used then newPosition C
                       else makeMove C (chessPosition ui) move)))
         \<and> (getStatus C (makeMove C (chessPosition ui) move) \<noteq> NORMAL \<longrightarrow>
               drop_handler C from to [] ui = None
               \<and> (\<forall>rest. drop_handler C from to (False # rest) ui =
                     Some ((resync C (submit C move ui))\<lparr>calls := calls ui @ MakeMove move
                        # RESYNC_CALLS @
                        [Confirm (prompt_message C (makeMove C (chessPosition ui) move))]\<rparr>, rest))
               \<and> (\<forall>rest. drop_handler C from to (True # rest) ui =
                     updateChessPosition C rest
                       ((resync C (submit C move ui))\<lparr>chessPosition := newPosition C,
                          calls := calls ui @ MakeMove move # RESYNC_CALLS @
                            [Confirm (prompt_message C (makeMove C (chessPosition ui) move)),
                             NewPosition]\<rparr>)))"
proof -
  have d: "drop_handler C from to as ui = updateChessPosition C as (submit C move ui)" for as
    using assms by (simp add: drop_handler_def)
  have c2: "makeMove_calls (calls ui') = makeMove_calls (calls ui) @ [move]
        \<and> (\<exists>tail. calls ui' = calls ui @ MakeMove move # RESYNC_CALLS @ tail \<and> restart_calls tail)"
    if "drop_handler C from to answers ui = Some (ui', rest)" for ui' rest
  proof -
    from that d obtain tail where
      t: "calls ui' = calls (submit C move ui) @ RESYNC_CALLS @ tail" "restart_calls tail"
      by (auto dest: updateChessPosition_calls)
    then show ?thesis
      by (simp add: makeMove_calls_append restart_calls_no_makeMove)
  qed
  have c1: "drop_handler C from to answers ui = Some (resync C (submit C move ui), answers)"
    if "getStatus C (makeMove C (chessPosition ui) move) = NORMAL"
    unfolding d using that by (subst updateChessPosition_resync) simp
  have c3: "\<exists>r. drop_handler C from to answers ui = Some r" if "False \<in> set answers"
    unfolding d using that by (rule updateChessPosition_returns)
  have c4: "\<exists>used tail. answers = used @ rest
                  \<and> calls ui' = calls ui @ MakeMove move # RESYNC_CALLS @ tail
                  \<and> restart_trace used tail
                  \<and> (used = []) = (getStatus C (makeMove C (chessPosition ui) move) = NORMAL)
                  \<and> count_list (RESYNC_CALLS @ tail) UpdatePieces = Suc (count_list used True)
                  \<and> chessPosition ui' =
                      (if True \<in> set used then newPosition C
                       else makeMove C (chessPosition ui) move)"
    if "drop_handler C from to answers ui = Some (ui', rest)" for ui' rest
  proof -
    from that have "updateChessPosition C answers (submit C move ui) = Some (ui', rest)"
      by (simp add: d)
    from updateChessPosition_trace [OF this] obtain used tail where
      u: "answers = used @ rest" "calls ui' = calls (submit C move ui) @ RESYNC_CALLS @ tail"
         "restart_trace used tail"
         "(used = []) = (getStatus C (chessPosition (submit C move ui)) = NORMAL)"
         "chessPosition ui' = (if True \<in> set used then newPosition C
                               else chessPosition (submit C move ui))"
      by blast
    have "count_list (RESYNC_CALLS @ tail) UpdatePieces = Suc (count_list used True)"
      using restart_trace_count [OF u(3)] by (simp add: RESYNC_CALLS_def)
    with u show ?thesis by auto
  qed
  have c5: "drop_handler C from to [] ui = None
               \<and> (\<forall>rest. drop_handler C from to (False # rest) ui =
                     Some ((resync C (submit C move ui))\<lparr>calls := calls ui @ MakeMove move
                        # RESYNC_CALLS @
                        [Confirm (prompt_message C (makeMove C (chessPosition ui) move))]\<rparr>, rest))
               \<and> (\<forall>rest. drop_handler C from to (True # rest) ui =
                     updateChessPosition C rest
                       ((resync C (submit C move ui))\<lparr>chessPosition := newPosition C,
                          calls := calls ui @ MakeMove move # RESYNC_CALLS @
                            [Confirm (prompt_message C (makeMove C (chessPosition ui) move)),
                             NewPosition]\<rparr>))"
    if "getStatus C (makeMove C (chessPosition ui) move) \<noteq> NORMAL"
  proof -
    from that have n: "getStatus C (chessPosition (submit C move ui)) \<noteq> NORMAL" by simp
    show ?thesis
      unfolding d using updateChessPosition_prompt [OF n] by simp
  qed
  from c1 c2 c3 c4 c5 show ?thesis by blast
qed

lemma find_filter_hd: "filter P xs = y # ys \<Longrightarrow> find P xs = Some y"
  by (induction xs) (auto split: if_splits)

text \<open>
  C7. For a drop with more than one move of the armed origin and the destination, the
  controller submits the first of them in the order of the legal-move list: the call of
  \<^verbatim>\<open>makeMove\<close> with this move is the first thing the handler does, no prompt before it,
  and it is the only call of \<^verbatim>\<open>makeMove\<close>.
\<close>

theorem drop_first_match:
  assumes "1 < length (filter (same_from_to from to) (moves ui))"
  shows "\<exists>move rest. filter (same_from_to from to) (moves ui) = move # rest
         \<and> find (same_from_to from to) (moves ui) = Some move
         \<and> drop_handler C from to answers ui = updateChessPosition C answers (submit C move ui)
         \<and> (getStatus C (makeMove C (chessPosition ui) move) = NORMAL \<longrightarrow>
               drop_handler C from to answers ui = Some (resync C (submit C move ui), answers))
         \<and> (\<forall>ui' left. drop_handler C from to answers ui = Some (ui', left) \<longrightarrow>
               makeMove_calls (calls ui') = makeMove_calls (calls ui) @ [move]
               \<and> (\<exists>tail. calls ui' = calls ui @ MakeMove move # tail))"
proof -
  from assms obtain move rest where f: "filter (same_from_to from to) (moves ui) = move # rest"
    by (cases "filter (same_from_to from to) (moves ui)") auto
  have fnd: "find (same_from_to from to) (moves ui) = Some move"
    using f by (rule find_filter_hd)
  have d: "drop_handler C from to answers ui = updateChessPosition C answers (submit C move ui)"
    using f by (simp add: drop_handler_def)
  have "makeMove_calls (calls ui') = makeMove_calls (calls ui) @ [move]
        \<and> (\<exists>tail. calls ui' = calls ui @ MakeMove move # tail)"
    if "drop_handler C from to answers ui = Some (ui', left)" for ui' left
  proof -
    from that d obtain tail where
      t: "calls ui' = calls (submit C move ui) @ RESYNC_CALLS @ tail" "restart_calls tail"
      by (auto dest: updateChessPosition_calls)
    then show ?thesis
      by (simp add: makeMove_calls_append restart_calls_no_makeMove)
  qed
  moreover have "drop_handler C from to answers ui = Some (resync C (submit C move ui), answers)"
    if "getStatus C (makeMove C (chessPosition ui) move) = NORMAL"
    unfolding d using that by (subst updateChessPosition_resync) simp
  ultimately show ?thesis using f fnd d by blast
qed

section \<open>The end of the game\<close>

lemma checkmate_message_names: "checkmate_message turn =
   color_name (opponent turn) @ '' wins. Checkmate! Do you want to restart the game?''"
  by (cases turn) (simp_all add: checkmate_message_def)

text \<open>
  C5, as amended. When the status after a resynchronization is checkmate, the controller
  shows a blocking confirmation that names the winning side, the opponent of the side to
  move. Without an answer it does not return. On decline it returns the resynchronized
  page with the position untouched. On acceptance it replaces the position with a fresh
  one and runs \<^verbatim>\<open>updateChessPosition\<close> on it, which is one resynchronization when the
  status of the fresh position is normal.
\<close>

theorem checkmate_prompt:
  assumes "getStatus C (chessPosition ui) = CHECKMATE"
  shows "updateChessPosition C [] ui = None
         \<and> updateChessPosition C (False # rest) ui =
             Some ((resync C ui)\<lparr>calls := calls ui @ RESYNC_CALLS @
                     [Confirm (color_name (opponent (getTurnColor C (chessPosition ui)))
                        @ '' wins. Checkmate! Do you want to restart the game?'')]\<rparr>, rest)
         \<and> updateChessPosition C (True # rest) ui =
             updateChessPosition C rest
               ((resync C ui)\<lparr>chessPosition := newPosition C,
                  calls := calls ui @ RESYNC_CALLS @
                     [Confirm (color_name (opponent (getTurnColor C (chessPosition ui)))
                        @ '' wins. Checkmate! Do you want to restart the game?''), NewPosition]\<rparr>)
         \<and> (getStatus C (newPosition C) = NORMAL \<longrightarrow>
               updateChessPosition C (True # rest) ui =
                 Some (resync C ((resync C ui)\<lparr>chessPosition := newPosition C,
                    calls := calls ui @ RESYNC_CALLS @
                     [Confirm (color_name (opponent (getTurnColor C (chessPosition ui)))
                        @ '' wins. Checkmate! Do you want to restart the game?''), NewPosition]\<rparr>), rest))"
proof -
  have 1: "updateChessPosition C [] ui = None"
    using assms by (subst updateChessPosition_resync) simp
  have 2: "updateChessPosition C (False # rest) ui =
             Some ((resync C ui)\<lparr>calls := calls ui @ RESYNC_CALLS @
                     [Confirm (color_name (opponent (getTurnColor C (chessPosition ui)))
                        @ '' wins. Checkmate! Do you want to restart the game?'')]\<rparr>, rest)"
    using assms by (subst updateChessPosition_resync) (simp add: checkmate_message_names)
  have 3: "updateChessPosition C (True # rest) ui =
             updateChessPosition C rest
               ((resync C ui)\<lparr>chessPosition := newPosition C,
                  calls := calls ui @ RESYNC_CALLS @
                     [Confirm (color_name (opponent (getTurnColor C (chessPosition ui)))
                        @ '' wins. Checkmate! Do you want to restart the game?''), NewPosition]\<rparr>)"
    using assms by (subst updateChessPosition_resync) (simp add: checkmate_message_names)
  have 4: "updateChessPosition C rest (ui'\<lparr>chessPosition := newPosition C, calls := cs\<rparr>) =
           Some (resync C (ui'\<lparr>chessPosition := newPosition C, calls := cs\<rparr>), rest)"
    if "getStatus C (newPosition C) = NORMAL" for ui' cs
    using that by (subst updateChessPosition_resync) simp
  from 1 2 3 4 show ?thesis by simp
qed

lemma demo_mated_fields [simp]:
  "dp_status demo_mated = CHECKMATE" "dp_turn demo_mated = BLACK"
  by (simp_all add: demo_mated_def demo_makeMove_def demo_start_def mv_def)

lemma demo_page_fields [simp]:
  "chessPosition (demo_page pos) = pos" "calls (demo_page pos) = []" "moves (demo_page pos) = []"
  by (simp_all add: demo_page_def)

lemma demo_start_status [simp]: "dp_status demo_start = NORMAL"
  by (simp add: demo_start_def)

text \<open>
  C5 fails as stated: with Black to move and mated, the prompt reads "White wins" and
  does not name Black, the losing side.
\<close>

theorem checkmate_prompt_counterexample:
  "getStatus demo_chess (chessPosition (demo_page demo_mated)) = CHECKMATE
   \<and> getTurnColor demo_chess (chessPosition (demo_page demo_mated)) = BLACK
   \<and> calls_of (updateChessPosition demo_chess [False] (demo_page demo_mated)) =
       Some (RESYNC_CALLS @ [Confirm ''White wins. Checkmate! Do you want to restart the game?''])
   \<and> \<not> occurs (color_name BLACK) ''White wins. Checkmate! Do you want to restart the game?''"
  by (simp add: updateChessPosition_resync calls_of_def checkmate_message_def)

text \<open>C5, as amended, at the mated position of the examples.\<close>

theorem checkmate_prompt_witness:
  "getStatus demo_chess (chessPosition (demo_page demo_mated)) = CHECKMATE
   \<and> updateChessPosition demo_chess [] (demo_page demo_mated) = None
   \<and> calls_of (updateChessPosition demo_chess [True] (demo_page demo_mated)) =
       Some (RESYNC_CALLS @ [Confirm ''White wins. Checkmate! Do you want to restart the game?'',
          NewPosition] @ RESYNC_CALLS)"
proof -
  have s: "getStatus demo_chess (chessPosition (demo_page demo_mated)) = CHECKMATE"
    by simp
  note t = checkmate_prompt [OF s, of "[]"]
  from t have a: "updateChessPosition demo_chess [] (demo_page demo_mated) = None"
    by (rule conjunct1)
  have n: "getStatus demo_chess (newPosition demo_chess) = NORMAL"
    by simp
  note c = t [THEN conjunct2, THEN conjunct2, THEN conjunct2, THEN mp, OF n]
  from c have "calls_of (updateChessPosition demo_chess [True] (demo_page demo_mated)) =
       Some (RESYNC_CALLS @ [Confirm ''White wins. Checkmate! Do you want to restart the game?'',
          NewPosition] @ RESYNC_CALLS)"
    by (simp add: calls_of_def)
  with s a show ?thesis by simp
qed

section \<open>A drop that matches no move\<close>





lemma demo_armed_fields [simp]:
  "chessPosition demo_armed = demo_start" "moves demo_armed = dp_moves demo_start"
  "dragging demo_armed = False" "calls demo_armed = RESYNC_CALLS @ [ClearDragging]"
  by (simp_all add: demo_armed_def demo_start_def mv_def)

lemma demo_armed_28: "board demo_armed 28 =
   \<lparr>td_classes = {''double-push'', ''to'', ''light''}, td_title = ''Square'', td_children = [],
     td_droppable = Some 12\<rparr>"
  by (simp add: demo_armed_def board_mouseenter demo_idle_28 page_simps destination_tags_def
      same_from_to_def applicable_tags_def)


lemma demo_stale_fields [simp]:
  "chessPosition demo_stale = demo_start" "moves demo_stale = dp_moves demo_start"
  "dragging demo_stale = True"
  by (simp_all add: demo_stale_def drag_start_def drag_stop_def)

lemma board_drag [simp]: "board (drag_start ui) = board ui" "board (drag_stop ui) = board ui"
  "dragging (drag_stop ui) = False" "moves (drag_stop ui) = moves ui" "moves (drag_start ui) = moves ui"
  by (simp_all add: drag_start_def drag_stop_def)





section \<open>Examples of drops\<close>

text \<open>
  C1 fails as stated, for exactly one resynchronization: the double push of the pawn mates,
  the user accepts the restart, and the handler resynchronizes twice.
\<close>

theorem drop_unique_move_counterexample:
  "filter (same_from_to 12 28) (moves demo_armed) = [mv 12 28 DOUBLE_PAWN_PUSH]
   \<and> td_droppable (board demo_armed 28) = Some 12
   \<and> calls_of (drop_handler demo_chess 12 28 [True] demo_armed) =
       Some (calls demo_armed @ MakeMove (mv 12 28 DOUBLE_PAWN_PUSH) # RESYNC_CALLS
             @ Confirm ''White wins. Checkmate! Do you want to restart the game?''
             # NewPosition # RESYNC_CALLS)"
  by (simp add: drop_handler_def demo_armed_28 same_from_to_def demo_start_def mv_def calls_of_def
      updateChessPosition_resync demo_makeMove_def checkmate_message_def)

text \<open>
  C1, as amended, at a drop of the pawn on square 20, which leaves the status normal, and at
  its double push, which mates, with the restart declined.
\<close>

theorem drop_unique_move_witness:
  "filter (same_from_to 12 20) (moves demo_armed) = [mv 12 20 POSITIONAL]
   \<and> drop_handler demo_chess 12 20 [] demo_armed =
       Some (resync demo_chess (submit demo_chess (mv 12 20 POSITIONAL) demo_armed), [])
   \<and> filter (same_from_to 12 28) (moves demo_armed) = [mv 12 28 DOUBLE_PAWN_PUSH]
   \<and> calls_of (drop_handler demo_chess 12 28 [False] demo_armed) =
       Some (calls demo_armed @ MakeMove (mv 12 28 DOUBLE_PAWN_PUSH) # RESYNC_CALLS
             @ [Confirm ''White wins. Checkmate! Do you want to restart the game?''])"
proof -
  have f: "filter (same_from_to 12 20) (moves demo_armed) = [mv 12 20 POSITIONAL]"
    by (simp add: same_from_to_def demo_start_def mv_def)
  have n: "getStatus demo_chess (makeMove demo_chess (chessPosition demo_armed) (mv 12 20 POSITIONAL))
           = NORMAL"
    by (simp add: demo_makeMove_def mv_def)
  note a = drop_unique_move [OF f, of demo_chess "[]", THEN conjunct1, THEN mp, OF n]
  have g: "filter (same_from_to 12 28) (moves demo_armed) = [mv 12 28 DOUBLE_PAWN_PUSH]"
    by (simp add: same_from_to_def demo_start_def mv_def)
  have m: "getStatus demo_chess (makeMove demo_chess (chessPosition demo_armed)
             (mv 12 28 DOUBLE_PAWN_PUSH)) \<noteq> NORMAL"
    by (simp add: demo_makeMove_def mv_def)
  note b = drop_unique_move [OF g, of demo_chess "[]", THEN conjunct2, THEN conjunct2,
    THEN conjunct2, THEN conjunct2, THEN mp, OF m, THEN conjunct2, THEN conjunct1, THEN spec, of "[]"]
  have "calls_of (drop_handler demo_chess 12 28 [False] demo_armed) =
       Some (calls demo_armed @ MakeMove (mv 12 28 DOUBLE_PAWN_PUSH) # RESYNC_CALLS
             @ [Confirm ''White wins. Checkmate! Do you want to restart the game?''])"
    unfolding b
    by (simp add: calls_of_def prompt_message_def checkmate_message_def demo_makeMove_def mv_def
        demo_start_def)
  with a f g show ?thesis by simp
qed

lemma promotion_armed_moves [simp]:
  "moves promotion_armed = dp_moves demo_promotion"
  "chessPosition promotion_armed = demo_promotion"
  by (simp_all add: promotion_armed_def)

text \<open>C7 at a drop with two promotions: the knight promotion, first in the list, is submitted.\<close>

theorem drop_first_match_witness:
  "1 < length (filter (same_from_to 52 60) (moves promotion_armed))
   \<and> find (same_from_to 52 60) (moves promotion_armed) = Some (mv 52 60 (PROMOTION KNIGHT))
   \<and> drop_handler demo_chess 52 60 [] promotion_armed =
       Some (resync demo_chess (submit demo_chess (mv 52 60 (PROMOTION KNIGHT)) promotion_armed), [])"
proof -
  have f: "filter (same_from_to 52 60) (moves promotion_armed) =
             [mv 52 60 (PROMOTION KNIGHT), mv 52 60 (PROMOTION QUEEN)]"
    by (simp add: same_from_to_def demo_promotion_def mv_def)
  then have l: "1 < length (filter (same_from_to 52 60) (moves promotion_armed))"
    by simp
  from drop_first_match [OF l, of demo_chess "[]"] obtain move rest where
    m: "filter (same_from_to 52 60) (moves promotion_armed) = move # rest"
    and fnd: "find (same_from_to 52 60) (moves promotion_armed) = Some move"
    and n: "getStatus demo_chess (makeMove demo_chess (chessPosition promotion_armed) move) = NORMAL \<longrightarrow>
            drop_handler demo_chess 52 60 [] promotion_armed =
              Some (resync demo_chess (submit demo_chess move promotion_armed), [])"
    by blast
  from m f have mv: "move = mv 52 60 (PROMOTION KNIGHT)" by simp
  have "getStatus demo_chess (makeMove demo_chess (chessPosition promotion_armed) move) = NORMAL"
    unfolding mv by (simp add: demo_makeMove_def mv_def)
  with n fnd l show ?thesis unfolding mv by simp
qed

section \<open>A hover over stale tags\<close>

lemma knight_released_fields [simp]:
  "moves knight_released = dp_moves demo_knight" "dragging knight_released = False"
  "chessPosition knight_released = demo_knight"
  by (simp_all add: knight_released_def drag_stop_def drag_start_def)




end
